theory Spec2Isabelle
  imports Complex_Main "HOL-Library.AList" "HOL-Library.Dlist" "HOL-Library.Sublist"
begin

section \<open>The tree viewer client (viewerclient.py)\<close>

text \<open>
  A shallow embedding of \<^verbatim>\<open>src/python/director/viewerclient.py\<close>: the geometry
  primitives and their serialisation, the lazily created scene tree \<^verbatim>\<open>LazyTree\<close>,
  the \<^verbatim>\<open>CommandQueue\<close> of pending changes, and the \<^verbatim>\<open>CoreVisualizer\<close> that
  owns both and publishes them.

  Python objects are mutated in place; here every method takes the state and returns the
  new state. A method that can raise returns a pair: \<open>Inl\<close> of the error or \<open>Inr ()\<close>,
  and the state as the call left it (an exception does not undo the mutations made before
  it was raised).
\<close>

subsection \<open>Values\<close>

text \<open>
  A path is a tuple of names. A transform is a 4x4 \<^verbatim>\<open>numpy\<close> array; the client only
  stores transforms and hands them to the codec, so the entries are modelled as reals.
\<close>

type_synonym path = "string list"

type_synonym mat = "real list list"

definition eye4 :: mat where
  "eye4 = [[1, 0, 0, 0], [0, 1, 0, 0], [0, 0, 1, 0], [0, 0, 0, 1]]"

text \<open>The values that are put into the outgoing JSON document; a dict keeps its keys in order.\<close>

datatype json =
    JStr string
  | JNum real
  | JList "json list"
  | JDict "(string \<times> json) list"

datatype error =
    KeyError string
  | ValueError int
  | TransportError

subsection \<open>Geometry primitives and GeometryData\<close>

datatype geometry =
    Box "real list"
  | Sphere real
  | Ellipsoid "real list"
  | Cylinder real real
  | Triad

text \<open>The method \<^verbatim>\<open>serialize\<close> of each primitive returns a fresh dict.\<close>

fun geometry_serialize :: "geometry \<Rightarrow> (string \<times> json) list" where
  "geometry_serialize (Box lengths) =
     [(''type'', JStr ''box''), (''lengths'', JList (map JNum lengths))]"
| "geometry_serialize (Sphere radius) =
     [(''type'', JStr ''sphere''), (''radius'', JNum radius)]"
| "geometry_serialize (Ellipsoid radii) =
     [(''type'', JStr ''ellipsoid''), (''radii'', JList (map JNum radii))]"
| "geometry_serialize (Cylinder len radius) =
     [(''type'', JStr ''cylinder''), (''length'', JNum len), (''radius'', JNum radius)]"
| "geometry_serialize Triad =
     [(''type'', JStr ''triad'')]"

record geometry_data =
  geometry :: geometry
  color :: "real list"
  geom_transform :: mat

text \<open>\<^verbatim>\<open>GeometryData(geometry)\<close> with the default colour and the default transform.\<close>

definition GeometryData :: "geometry \<Rightarrow> geometry_data" where
  "GeometryData g = \<lparr>geometry = g, color = [1, 1, 1, 1], geom_transform = eye4\<rparr>"

subsection \<open>LazyTree\<close>

text \<open>
  A node holds its geometries, its transform and its children. \<^verbatim>\<open>children\<close> is a
  \<^verbatim>\<open>defaultdict\<close>: a dict (here an association list in key order of insertion) whose
  \<^verbatim>\<open>__getitem__\<close> inserts a fresh \<^verbatim>\<open>LazyTree()\<close> under a missing key.
\<close>

datatype lazy_tree =
  LazyTree (geometries: "geometry_data list") (transform: mat)
           (children: "(string \<times> lazy_tree) list")

definition LazyTree_init :: lazy_tree where
  "LazyTree_init = LazyTree [] eye4 []"

text \<open>The value of \<^verbatim>\<open>t[item]\<close>: the child, or the fresh node that the defaultdict makes.\<close>

definition getitem :: "string \<Rightarrow> lazy_tree \<Rightarrow> lazy_tree" where
  "getitem item t =
     (case map_of (children t) item of Some c \<Rightarrow> c | None \<Rightarrow> LazyTree_init)"

text \<open>
  The value of \<^verbatim>\<open>getdescendant(path)\<close>: the loop \<^verbatim>\<open>for p in path: t = t[p]\<close>.
\<close>

definition getdescendant :: "path \<Rightarrow> lazy_tree \<Rightarrow> lazy_tree" where
  "getdescendant path t = fold getitem path t"

text \<open>
  The effect of \<^verbatim>\<open>d[k]\<close> on a defaultdict \<open>d\<close>, followed by a change \<open>f\<close> of the
  object it returns: the entry under \<open>k\<close> is changed in place, and a missing entry is
  appended, made by the default factory \<open>dflt\<close>.
\<close>

fun alter :: "'k \<Rightarrow> ('v \<Rightarrow> 'v) \<Rightarrow> 'v \<Rightarrow> ('k \<times> 'v) list \<Rightarrow> ('k \<times> 'v) list" where
  "alter k f dflt [] = [(k, f dflt)]"
| "alter k f dflt ((k', v) # kvs) =
     (if k = k' then (k', f v) # kvs else (k', v) # alter k f dflt kvs)"

text \<open>
  The effect on the tree of \<^verbatim>\<open>getdescendant(path)\<close> followed by a change \<open>f\<close> of the
  node it returns: every node on the way is created when missing, and the node at the end
  of the path is replaced by \<open>f\<close> of it. With \<open>f = id\<close> this is the effect of a read.
\<close>

primrec with_descendant :: "path \<Rightarrow> (lazy_tree \<Rightarrow> lazy_tree) \<Rightarrow> lazy_tree \<Rightarrow> lazy_tree" where
  "with_descendant [] f = f"
| "with_descendant (p # ps) f =
     (\<lambda>t. LazyTree (geometries t) (transform t)
            (alter p (with_descendant ps f) LazyTree_init (children t)))"

definition touch :: "path \<Rightarrow> lazy_tree \<Rightarrow> lazy_tree" where
  "touch path t = with_descendant path id t"

definition set_geometries :: "geometry_data list \<Rightarrow> lazy_tree \<Rightarrow> lazy_tree" where
  "set_geometries gs t = LazyTree gs (transform t) (children t)"

definition set_transform :: "mat \<Rightarrow> lazy_tree \<Rightarrow> lazy_tree" where
  "set_transform tform t = LazyTree (geometries t) tform (children t)"

text \<open>\<^verbatim>\<open>del t.children[key]\<close> on a key that is present.\<close>

definition del_child :: "string \<Rightarrow> lazy_tree \<Rightarrow> lazy_tree" where
  "del_child key t = LazyTree (geometries t) (transform t) (AList.delete key (children t))"

fun descendants :: "path \<Rightarrow> lazy_tree \<Rightarrow> path list" where
  "descendants pre (LazyTree gs tform ch) =
     concat (map (\<lambda>kv. (pre @ [fst kv]) # descendants (pre @ [fst kv]) (snd kv)) ch)"

subsection \<open>CommandQueue\<close>

text \<open>
  Three Python sets of paths. A set is a \<open>dlist\<close>: a list without duplicates, which is
  the order in which a loop visits the set (\<open>list_of_dlist\<close>); \<^verbatim>\<open>s.add(x)\<close> is
  \<open>Dlist.insert\<close>, which leaves a set that holds \<open>x\<close> as it is. A set is false in a
  condition when it is empty.
\<close>

record command_queue =
  draw :: "path dlist"
  load :: "path dlist"
  delete :: "path dlist"

definition CommandQueue_init :: command_queue where
  "CommandQueue_init = \<lparr>draw = Dlist.empty, load = Dlist.empty, delete = Dlist.empty\<rparr>"

definition isempty :: "command_queue \<Rightarrow> bool" where
  "isempty q =
     (\<not> (list_of_dlist (draw q) \<noteq> [] \<or> list_of_dlist (load q) \<noteq> [] \<or>
         list_of_dlist (delete q) \<noteq> []))"

definition empty :: "command_queue \<Rightarrow> command_queue" where
  "empty q = q\<lparr>draw := Dlist.empty, load := Dlist.empty, delete := Dlist.empty\<rparr>"

subsection \<open>The outgoing message and the world outside\<close>

text \<open>
  The dict that \<^verbatim>\<open>serialize_queue\<close> returns: \<open>msg_delete\<close> holds the path of every
  \<^verbatim>\<open>{"path": path}\<close> record, \<open>msg_load\<close> the path and the geometries of every load
  record, \<open>msg_draw\<close> the path and the transform of every draw record.
\<close>

record message =
  utime :: int
  msg_delete :: "path list"
  msg_load :: "(path \<times> json list) list"
  msg_draw :: "(path \<times> json) list"

text \<open>
  What the client calls and does not define: the clock (\<open>time_us\<close> is
  \<^verbatim>\<open>int(time.time() * 1e6)\<close>), the transport (\<open>lcm_publish m\<close> holds when
  \<^verbatim>\<open>lcm.publish\<close> returns for the message \<open>m\<close>, and fails when it raises), and the two
  functions of the \<^verbatim>\<open>transformations\<close> module that decompose a matrix.
\<close>

record world =
  time_us :: int
  lcm_publish :: "message \<Rightarrow> bool"
  translation_from_matrix :: "mat \<Rightarrow> real list"
  quaternion_from_matrix :: "mat \<Rightarrow> real list"

definition serialize_transform :: "world \<Rightarrow> mat \<Rightarrow> json" where
  "serialize_transform w tform =
     JDict [(''translation'', JList (map JNum (translation_from_matrix w tform))),
            (''quaternion'', JList (map JNum (quaternion_from_matrix w tform)))]"

text \<open>
  \<^verbatim>\<open>GeometryData.serialize\<close>: the dict of the primitive, with the keys
  \<^verbatim>\<open>color\<close> and \<^verbatim>\<open>transform\<close> assigned.
\<close>

definition serialize :: "world \<Rightarrow> geometry_data \<Rightarrow> json" where
  "serialize w gd =
     JDict (AList.update ''transform'' (serialize_transform w (geom_transform gd))
             (AList.update ''color'' (JList (map JNum (color gd)))
               (geometry_serialize (geometry gd))))"

subsection \<open>CoreVisualizer\<close>

text \<open>
  The state of a \<^verbatim>\<open>CoreVisualizer\<close>. \<open>sent\<close> is the list of the messages that
  \<^verbatim>\<open>lcm.publish\<close> has accepted, oldest first.
\<close>

record core_visualizer =
  tree :: lazy_tree
  queue :: command_queue
  publish_immediately :: bool
  sent :: "message list"

definition CoreVisualizer_init :: core_visualizer where
  "CoreVisualizer_init =
     \<lparr>tree = LazyTree_init, queue = CommandQueue_init, publish_immediately = True, sent = []\<rparr>"

text \<open>
  The loop over \<^verbatim>\<open>self.queue.load\<close> in \<^verbatim>\<open>serialize_queue\<close>. Reading the node with
  \<^verbatim>\<open>getdescendant\<close> creates it when it is missing, so the loop returns the tree too.
\<close>

fun load_records :: "world \<Rightarrow> path list \<Rightarrow> lazy_tree \<Rightarrow> (path \<times> json list) list \<times> lazy_tree" where
  "load_records w [] t = ([], t)"
| "load_records w (path # paths) t =
     (let geoms = geometries (getdescendant path t);
          (rest, t') = load_records w paths (touch path t)
      in ((if geoms \<noteq> [] then [(path, map (serialize w) geoms)] else []) @ rest, t'))"

text \<open>The loop over \<^verbatim>\<open>self.queue.draw\<close>.\<close>

fun draw_records :: "world \<Rightarrow> path list \<Rightarrow> lazy_tree \<Rightarrow> (path \<times> json) list \<times> lazy_tree" where
  "draw_records w [] t = ([], t)"
| "draw_records w (path # paths) t =
     (let tform = transform (getdescendant path t);
          (rest, t') = draw_records w paths (touch path t)
      in ((path, serialize_transform w tform) # rest, t'))"

text \<open>
  \<^verbatim>\<open>serialize_queue\<close>: the three loops, then the clock. It returns the message and the
  core, whose tree the two loops may have grown.
\<close>

definition serialize_queue :: "world \<Rightarrow> core_visualizer \<Rightarrow> message \<times> core_visualizer" where
  "serialize_queue w c =
     (let (ld, t1) = load_records w (list_of_dlist (load (queue c))) (tree c);
          (dr, t2) = draw_records w (list_of_dlist (draw (queue c))) t1
      in (\<lparr>utime = time_us w, msg_delete = list_of_dlist (delete (queue c)),
           msg_load = ld, msg_draw = dr\<rparr>,
          c\<lparr>tree := t2\<rparr>))"

text \<open>
  \<^verbatim>\<open>publish\<close>: the queue is emptied by the statement after the send, so a send that
  raises leaves the method before the queue is emptied. (\<^verbatim>\<open>to_lcm\<close> wraps the message
  for the transport and is not modelled.)
\<close>

definition publish :: "world \<Rightarrow> core_visualizer \<Rightarrow> (error + unit) \<times> core_visualizer" where
  "publish w c =
     (if \<not> isempty (queue c) then
        (let (data, c') = serialize_queue w c
         in if lcm_publish w data
            then (Inr (), c'\<lparr>queue := empty (queue c'), sent := sent c' @ [data]\<rparr>)
            else (Inl TransportError, c'))
      else (Inr (), c))"

text \<open>\<^verbatim>\<open>_maybe_publish\<close>.\<close>

definition maybe_publish :: "world \<Rightarrow> core_visualizer \<Rightarrow> (error + unit) \<times> core_visualizer" where
  "maybe_publish w c = (if publish_immediately c then publish w c else (Inr (), c))"

text \<open>
  The argument of \<^verbatim>\<open>load\<close>: a single primitive, a single \<^verbatim>\<open>GeometryData\<close>, or a
  collection of either.
\<close>

datatype geom_item = Geom geometry | Data geometry_data

datatype geomdata = Single geom_item | Collection "geom_item list"

text \<open>
  \<^verbatim>\<open>_load\<close> is \<open>core_load_geoms\<close>: it wraps every item that is not a
  \<^verbatim>\<open>GeometryData\<close> (\<open>convert\<close>), assigns the list to the node, marks the path and
  publishes if the core publishes immediately. \<^verbatim>\<open>load\<close> is \<open>core_load\<close>, with its
  three cases in the order of the source; \<^verbatim>\<open>draw\<close> is \<open>core_draw\<close>.
\<close>

definition convert :: "geom_item \<Rightarrow> geometry_data" where
  "convert geom = (case geom of Data gd \<Rightarrow> gd | Geom g \<Rightarrow> GeometryData g)"

definition core_load_geoms :: "world \<Rightarrow> path \<Rightarrow> geom_item list \<Rightarrow> core_visualizer \<Rightarrow> (error + unit) \<times> core_visualizer" where
  "core_load_geoms w path geoms c =
     (let converted_geom_data = map convert geoms
      in maybe_publish w
           (c\<lparr>tree := with_descendant path (set_geometries converted_geom_data) (tree c),
              queue := (queue c)\<lparr>load := Dlist.insert path (load (queue c))\<rparr>\<rparr>))"

definition core_load :: "world \<Rightarrow> path \<Rightarrow> geomdata \<Rightarrow> core_visualizer \<Rightarrow> (error + unit) \<times> core_visualizer" where
  "core_load w path gd c =
     (case gd of
        Single (Geom g) \<Rightarrow> core_load_geoms w path [Data (GeometryData g)] c
      | Collection geoms \<Rightarrow> core_load_geoms w path geoms c
      | Single (Data d) \<Rightarrow> core_load_geoms w path [Data d] c)"

definition core_draw :: "world \<Rightarrow> path \<Rightarrow> mat \<Rightarrow> core_visualizer \<Rightarrow> (error + unit) \<times> core_visualizer" where
  "core_draw w path tform c =
     maybe_publish w
       (c\<lparr>tree := with_descendant path (set_transform tform) (tree c),
          queue := (queue c)\<lparr>draw := Dlist.insert path (draw (queue c))\<rparr>\<rparr>)"

text \<open>
  \<^verbatim>\<open>delete\<close>. With a path that is not empty, \<^verbatim>\<open>getdescendant(path[:-1])\<close> creates the
  parent when it is missing, and \<^verbatim>\<open>del t.children[path[-1]]\<close> raises \<^verbatim>\<open>KeyError\<close> when
  the parent has no such child: \<^verbatim>\<open>del\<close> does not call the default factory. The
  exception leaves the method before the path is queued.
\<close>

definition core_delete :: "world \<Rightarrow> path \<Rightarrow> core_visualizer \<Rightarrow> (error + unit) \<times> core_visualizer" where
  "core_delete w path c =
     (if path = [] then
        maybe_publish w
          (c\<lparr>tree := LazyTree_init,
             queue := (queue c)\<lparr>delete := Dlist.insert path (delete (queue c))\<rparr>\<rparr>)
      else
        (let t = getdescendant (butlast path) (tree c)
         in if map_of (children t) (last path) = None
            then (Inl (KeyError (last path)), c\<lparr>tree := touch (butlast path) (tree c)\<rparr>)
            else maybe_publish w
                   (c\<lparr>tree := with_descendant (butlast path) (del_child (last path)) (tree c),
                      queue := (queue c)\<lparr>delete := Dlist.insert path (delete (queue c))\<rparr>\<rparr>)))"

text \<open>
  \<^verbatim>\<open>_handle_response\<close>, from the value of \<^verbatim>\<open>data["status"]\<close> of the decoded message on.
\<close>

definition mark_all :: "path list \<Rightarrow> command_queue \<Rightarrow> command_queue" where
  "mark_all paths q =
     fold (\<lambda>path q. q\<lparr>load := Dlist.insert path (load q), draw := Dlist.insert path (draw q)\<rparr>)
       paths q"

definition handle_response :: "int \<Rightarrow> core_visualizer \<Rightarrow> (error + unit) \<times> core_visualizer" where
  "handle_response status c =
     (if status = 0 then (Inr (), c)
      else if status = 1 then
        (Inr (), c\<lparr>queue := mark_all (descendants [] (tree c)) (queue c)\<rparr>)
      else (Inl (ValueError status), c))"

subsection \<open>Visualizer\<close>

text \<open>
  A \<^verbatim>\<open>Visualizer\<close> is a core and a path. The core is shared by reference; here the
  handle is its path, and the methods take the core as the state. A path given as a
  string is split at \<^verbatim>\<open>/\<close>, and when the first piece is empty the empty pieces are
  dropped.
\<close>

fun split :: "char \<Rightarrow> string \<Rightarrow> string list" where
  "split sep [] = [[]]"
| "split sep (c # cs) =
     (if c = sep then [] # split sep cs
      else (c # hd (split sep cs)) # tl (split sep cs))"

datatype path_arg = NoPath | StrPath string | TuplePath path

definition Visualizer_init :: "path_arg \<Rightarrow> path" where
  "Visualizer_init arg =
     (case arg of
        NoPath \<Rightarrow> []
      | StrPath s \<Rightarrow>
          (let path = split CHR ''/'' s
           in if hd path = [] then filter (\<lambda>p. p \<noteq> []) path else path)
      | TuplePath path \<Rightarrow> path)"

definition vis_getitem :: "path \<Rightarrow> string \<Rightarrow> path" where
  "vis_getitem self_path name = Visualizer_init (TuplePath (self_path @ [name]))"

definition vis_load :: "world \<Rightarrow> path \<Rightarrow> geomdata \<Rightarrow> core_visualizer \<Rightarrow> (error + unit) \<times> core_visualizer" where
  "vis_load w self_path gd c = core_load w self_path gd c"

definition vis_draw :: "world \<Rightarrow> path \<Rightarrow> mat \<Rightarrow> core_visualizer \<Rightarrow> (error + unit) \<times> core_visualizer" where
  "vis_draw w self_path tform c = core_draw w self_path tform c"

definition vis_delete :: "world \<Rightarrow> path \<Rightarrow> core_visualizer \<Rightarrow> (error + unit) \<times> core_visualizer" where
  "vis_delete w self_path c = core_delete w self_path c"

subsection \<open>Sequences of calls\<close>




text \<open>
  The paths that a sequence of calls leaves alive, read off the calls alone: a load or a
  draw of a path brings the path and every node on the way to it (its prefixes that are
  not empty), and a delete of a path takes away the path and everything below it.
\<close>

definition on_the_way :: "path \<Rightarrow> path list" where
  "on_the_way path = tl (prefixes path)"



subsection \<open>What a flush reads\<close>

text \<open>
  The record that the load loop makes of a marked path, and the record that the draw loop
  makes, each read in a tree \<open>t\<close>.
\<close>

definition load_record :: "world \<Rightarrow> lazy_tree \<Rightarrow> path \<Rightarrow> (path \<times> json list) list" where
  "load_record w t path =
     (if geometries (getdescendant path t) \<noteq> []
      then [(path, map (serialize w) (geometries (getdescendant path t)))] else [])"

definition draw_record :: "world \<Rightarrow> lazy_tree \<Rightarrow> path \<Rightarrow> path \<times> json" where
  "draw_record w t path = (path, serialize_transform w (transform (getdescendant path t)))"



subsection \<open>Worlds and states for the examples\<close>

text \<open>
  A world in which the clock stands at 0 and the transport accepts every message
  (\<open>ok = True\<close>) or refuses every message (\<open>ok = False\<close>). Its codec reads the
  translation off the last column, and computes a quaternion \<open>[w, x, y, z]\<close> of a
  rotation matrix with a positive trace, without normalising it.
\<close>

definition sample_translation :: "mat \<Rightarrow> real list" where
  "sample_translation m = map (\<lambda>row. row ! 3) (take 3 m)"

definition sample_quaternion :: "mat \<Rightarrow> real list" where
  "sample_quaternion m =
     map (\<lambda>x. x / 4)
       [1 + m ! 0 ! 0 + m ! 1 ! 1 + m ! 2 ! 2, m ! 2 ! 1 - m ! 1 ! 2,
        m ! 0 ! 2 - m ! 2 ! 0, m ! 1 ! 0 - m ! 0 ! 1]"

definition sample_world :: "bool \<Rightarrow> world" where
  "sample_world ok =
     \<lparr>time_us = 0, lcm_publish = (\<lambda>m. ok),
      translation_from_matrix = sample_translation,
      quaternion_from_matrix = sample_quaternion\<rparr>"

text \<open>The translation by 1 along the first axis.\<close>

definition shift_x :: mat where
  "shift_x = [[1, 0, 0, 1], [0, 1, 0, 0], [0, 0, 1, 0], [0, 0, 0, 1]]"

text \<open>A fresh core that publishes only when asked to.\<close>

definition batching_core :: core_visualizer where
  "batching_core = CoreVisualizer_init\<lparr>publish_immediately := False\<rparr>"

text \<open>A batching core in which the path \<open>a\<close> has been drawn and not yet published.\<close>

definition drawn_core :: core_visualizer where
  "drawn_core = snd (core_draw (sample_world False) [''a''] eye4 batching_core)"


text \<open>
  A batching core in which \<open>a\<close> has been drawn and then deleted: \<open>a\<close> is still marked
  for draw.
\<close>

definition erased_core :: core_visualizer where
  "erased_core =
     snd (core_delete (sample_world True) [''a'']
       (snd (core_draw (sample_world True) [''a''] shift_x batching_core)))"

text \<open>A core, as constructed, after a triad was loaded at the path \<open>a/b\<close>.\<close>

definition loaded_core :: core_visualizer where
  "loaded_core =
     snd (core_load (sample_world True) [''a'', ''b''] (Single (Geom Triad)) CoreVisualizer_init)"


section \<open>Properties of the tree and of a flush\<close>

subsection \<open>Reading a node after the tree was touched\<close>

lemma map_of_alter:
  "map_of (alter k f d kvs) k' =
     (if k' = k then Some (f (case map_of kvs k of None \<Rightarrow> d | Some v \<Rightarrow> v)) else map_of kvs k')"
  by (induction kvs) auto

lemma getitem_with_descendant:
  "getitem k (LazyTree g tf (alter k' h LazyTree_init (children t))) =
     (if k = k' then h (getitem k t) else getitem k t)"
  by (simp add: getitem_def map_of_alter split: option.splits)

lemma getdescendant_simps:
  "getdescendant [] t = t"
  "getdescendant (k # ps) t = getdescendant ps (getitem k t)"
  by (simp_all add: getdescendant_def)

lemma getdescendant_init: "getdescendant ps LazyTree_init = LazyTree_init"
  by (induction ps) (simp_all add: getdescendant_simps getitem_def LazyTree_init_def)

lemma getdescendant_touch_data:
  "geometries (getdescendant p (touch q t)) = geometries (getdescendant p t) \<and>
   transform (getdescendant p (touch q t)) = transform (getdescendant p t)"
proof (induction p arbitrary: q t)
  case Nil
  show ?case by (cases q) (simp_all add: getdescendant_simps touch_def)
next
  case (Cons k ps)
  show ?case
  proof (cases q)
    case Nil
    then show ?thesis by (simp add: touch_def)
  next
    case (Cons k' qs)
    show ?thesis
    proof (cases "k = k'")
      case True
      have "getitem k (touch q t) = touch qs (getitem k t)"
        using Cons True by (simp add: touch_def getitem_with_descendant)
      then show ?thesis using Cons.IH [of qs "getitem k t"] by (simp add: getdescendant_simps)
    next
      case False
      have "getitem k (touch q t) = getitem k t"
        using Cons False by (simp add: touch_def getitem_with_descendant)
      then show ?thesis by (simp add: getdescendant_simps)
    qed
  qed
qed

lemma getdescendant_with_descendant_same:
  "getdescendant p (with_descendant p f t) = f (getdescendant p t)"
  by (induction p arbitrary: t) (simp_all add: getdescendant_simps getitem_with_descendant)

lemma getdescendant_fold_touch_data:
  "geometries (getdescendant p (fold touch qs t)) = geometries (getdescendant p t) \<and>
   transform (getdescendant p (fold touch qs t)) = transform (getdescendant p t)"
  by (induction qs arbitrary: t) (simp_all add: getdescendant_touch_data)

lemma load_record_touch: "load_record w (touch q t) = load_record w t"
  by (rule ext) (simp add: load_record_def getdescendant_touch_data)

lemma draw_record_touch: "draw_record w (touch q t) = draw_record w t"
  by (rule ext) (simp add: draw_record_def getdescendant_touch_data)

lemma draw_record_fold_touch: "draw_record w (fold touch qs t) = draw_record w t"
  by (rule ext) (simp add: draw_record_def getdescendant_fold_touch_data)

lemma load_records_eq:
  "load_records w paths t = (concat (map (load_record w t) paths), fold touch paths t)"
proof (induction paths arbitrary: t)
  case Nil
  show ?case by simp
next
  case (Cons p paths)
  show ?case
    by (simp add: Cons.IH load_record_touch) (simp add: load_record_def)
qed

lemma draw_records_eq:
  "draw_records w paths t = (map (draw_record w t) paths, fold touch paths t)"
proof (induction paths arbitrary: t)
  case Nil
  show ?case by simp
next
  case (Cons p paths)
  show ?case
    by (simp add: Cons.IH draw_record_touch) (simp add: draw_record_def)
qed

lemma serialize_queue_eq:
  "serialize_queue w c =
     (\<lparr>utime = time_us w, msg_delete = list_of_dlist (delete (queue c)),
       msg_load = concat (map (load_record w (tree c)) (list_of_dlist (load (queue c)))),
       msg_draw = map (draw_record w (tree c)) (list_of_dlist (draw (queue c)))\<rparr>,
      c\<lparr>tree := fold touch (list_of_dlist (draw (queue c)))
                (fold touch (list_of_dlist (load (queue c))) (tree c))\<rparr>)"
  by (simp add: serialize_queue_def load_records_eq draw_records_eq draw_record_fold_touch)

subsection \<open>The paths of a tree\<close>

lemma descendants_children:
  "descendants pre t =
     concat (map (\<lambda>kv. (pre @ [fst kv]) # descendants (pre @ [fst kv]) (snd kv)) (children t))"
  by (cases t) simp

lemma descendants_shift: "descendants pre t = map ((@) pre) (descendants [] t)"
proof (induction t arbitrary: pre)
  case (LazyTree gs tform ch)
  have step: "descendants (pre @ [fst kv]) (snd kv) = map ((@) pre) (descendants [fst kv] (snd kv))"
    if "kv \<in> set ch" for kv pre
  proof -
    have "snd kv \<in> Basic_BNFs.snds kv" by (cases kv) simp
    then have a: "descendants p (snd kv) = map ((@) p) (descendants [] (snd kv))" for p
      using LazyTree.IH [OF that] by blast
    show ?thesis by (simp add: a [of "pre @ [fst kv]"] a [of "[fst kv]"])
  qed
  have "map (\<lambda>kv. (pre @ [fst kv]) # descendants (pre @ [fst kv]) (snd kv)) ch =
        map (\<lambda>kv. map ((@) pre) ([fst kv] # descendants [fst kv] (snd kv))) ch"
    by (rule map_cong) (simp_all add: step)
  then have "descendants pre (LazyTree gs tform ch) =
        concat (map (\<lambda>kv. map ((@) pre) ([fst kv] # descendants [fst kv] (snd kv))) ch)"
    by (simp only: descendants.simps)
  also have "\<dots> = map ((@) pre) (concat (map (\<lambda>kv. [fst kv] # descendants [fst kv] (snd kv)) ch))"
    by (simp only: map_concat map_map comp_def)
  also have "concat (map (\<lambda>kv. [fst kv] # descendants [fst kv] (snd kv)) ch) =
        descendants [] (LazyTree gs tform ch)"
    by simp
  finally show ?case .
qed


lemma descendants_Nil_eq:
  "descendants [] t =
     concat (map (\<lambda>kv. [fst kv] # map ((#) (fst kv)) (descendants [] (snd kv))) (children t))"
proof -
  have a: "descendants [k] v = map ((#) k) (descendants [] v)" for k v
    using descendants_shift [of "[k]" v] by (simp add: append_Cons [abs_def])
  show ?thesis
    by (subst descendants_children) (simp only: append_Nil a)
qed

lemma set_descendants:
  "set (descendants [] t) =
     (\<Union>kv \<in> set (children t). insert [fst kv] ((#) (fst kv) ` set (descendants [] (snd kv))))"
  by (subst descendants_Nil_eq) simp

lemma in_descendants_Cons:
  "(k # r) \<in> set (descendants [] t) \<longleftrightarrow>
     (\<exists>v. (k, v) \<in> set (children t) \<and> (r = [] \<or> r \<in> set (descendants [] v)))"
proof
  assume "(k # r) \<in> set (descendants [] t)"
  then obtain kv where kv: "kv \<in> set (children t)"
      "k # r = [fst kv] \<or> k # r \<in> (#) (fst kv) ` set (descendants [] (snd kv))"
    unfolding set_descendants [of t] by blast
  then have "k = fst kv" and "r = [] \<or> r \<in> set (descendants [] (snd kv))" by auto
  with kv(1) show "\<exists>v. (k, v) \<in> set (children t) \<and> (r = [] \<or> r \<in> set (descendants [] v))"
    by (intro exI [of _ "snd kv"]) simp
next
  assume "\<exists>v. (k, v) \<in> set (children t) \<and> (r = [] \<or> r \<in> set (descendants [] v))"
  then obtain v where v: "(k, v) \<in> set (children t)" "r = [] \<or> r \<in> set (descendants [] v)"
    by blast
  from v(2) have "k # r \<in> insert [fst (k, v)] ((#) (fst (k, v)) ` set (descendants [] (snd (k, v))))"
    by auto
  with v(1) show "(k # r) \<in> set (descendants [] t)"
    unfolding set_descendants [of t] by blast
qed

lemma Nil_notin_descendants: "[] \<notin> set (descendants [] t)"
  unfolding set_descendants [of t] by auto









subsection \<open>Publishing\<close>

lemma empty_queue: "empty q = CommandQueue_init"
  by (simp add: empty_def CommandQueue_init_def)

lemma isempty_init: "isempty CommandQueue_init"
  by (simp add: isempty_def CommandQueue_init_def)

lemma serialize_queue_state:
  "queue (snd (serialize_queue w c)) = queue c"
  "sent (snd (serialize_queue w c)) = sent c"
  "publish_immediately (snd (serialize_queue w c)) = publish_immediately c"
  "tree (snd (serialize_queue w c)) =
     fold touch (list_of_dlist (draw (queue c))) (fold touch (list_of_dlist (load (queue c))) (tree c))"
  by (simp_all add: serialize_queue_eq)

lemma serialize_queue_msg:
  "msg_load (fst (serialize_queue w c)) =
     concat (map (load_record w (tree c)) (list_of_dlist (load (queue c))))"
  "msg_draw (fst (serialize_queue w c)) = map (draw_record w (tree c)) (list_of_dlist (draw (queue c)))"
  "msg_delete (fst (serialize_queue w c)) = list_of_dlist (delete (queue c))"
  by (simp_all add: serialize_queue_eq)

lemma publish_accepted:
  assumes "\<not> isempty (queue c)" "lcm_publish w (fst (serialize_queue w c))"
  shows "publish w c =
     (Inr (), (snd (serialize_queue w c))
        \<lparr>queue := CommandQueue_init, sent := sent c @ [fst (serialize_queue w c)]\<rparr>)"
  using assms by (simp add: publish_def empty_queue serialize_queue_state case_prod_beta)

lemma publish_refused:
  assumes "\<not> isempty (queue c)" "\<not> lcm_publish w (fst (serialize_queue w c))"
  shows "publish w c = (Inl TransportError, snd (serialize_queue w c))"
  using assms by (simp add: publish_def case_prod_beta)

lemma publish_idle: "isempty (queue c) \<Longrightarrow> publish w c = (Inr (), c)"
  by (simp add: publish_def)

lemma publish_data:
  "geometries (getdescendant p (tree (snd (publish w c)))) = geometries (getdescendant p (tree c))"
  "transform (getdescendant p (tree (snd (publish w c)))) = transform (getdescendant p (tree c))"
proof -
  have "geometries (getdescendant p (tree (snd (publish w c)))) = geometries (getdescendant p (tree c)) \<and>
        transform (getdescendant p (tree (snd (publish w c)))) = transform (getdescendant p (tree c))"
  proof (cases "isempty (queue c)")
    case True
    then show ?thesis by (simp add: publish_idle)
  next
    case False
    then show ?thesis
      by (cases "lcm_publish w (fst (serialize_queue w c))")
         (simp_all add: publish_accepted publish_refused serialize_queue_state
            getdescendant_fold_touch_data)
  qed
  then show "geometries (getdescendant p (tree (snd (publish w c)))) = geometries (getdescendant p (tree c))"
    and "transform (getdescendant p (tree (snd (publish w c)))) = transform (getdescendant p (tree c))"
    by simp_all
qed

lemma maybe_publish_data:
  "geometries (getdescendant p (tree (snd (maybe_publish w c)))) = geometries (getdescendant p (tree c))"
  "transform (getdescendant p (tree (snd (maybe_publish w c)))) = transform (getdescendant p (tree c))"
  by (simp_all add: maybe_publish_def publish_data)

lemma core_draw_transform:
  "transform (getdescendant p (tree (snd (core_draw w p T c)))) = T"
  by (simp add: core_draw_def maybe_publish_data getdescendant_with_descendant_same
        set_transform_def)

lemma core_load_geoms_transform:
  "transform (getdescendant p (tree (snd (core_load_geoms w p gs c)))) =
     transform (getdescendant p (tree c))"
  by (simp add: core_load_geoms_def maybe_publish_data getdescendant_with_descendant_same
        set_geometries_def)

lemma core_load_geoms_geometries:
  "geometries (getdescendant p (tree (snd (core_load_geoms w p gs c)))) = map convert gs"
  by (simp add: core_load_geoms_def maybe_publish_data getdescendant_with_descendant_same
        set_geometries_def)

lemma core_load_geometries:
  "geometries (getdescendant p (tree (snd (core_load w p G c)))) =
     (case G of Single item \<Rightarrow> [convert item] | Collection items \<Rightarrow> map convert items)"
  by (simp add: core_load_def core_load_geoms_geometries convert_def
        split: geomdata.splits geom_item.splits)

lemma core_load_transform:
  "transform (getdescendant p (tree (snd (core_load w p G c)))) =
     transform (getdescendant p (tree c))"
  by (simp add: core_load_def core_load_geoms_transform split: geomdata.splits geom_item.splits)

lemma missing_node_fresh:
  "p \<noteq> [] \<Longrightarrow> p \<notin> set (descendants [] t) \<Longrightarrow> getdescendant p t = LazyTree_init"
proof (induction p arbitrary: t)
  case Nil
  then show ?case by simp
next
  case (Cons k r)
  show ?case
  proof (cases "map_of (children t) k")
    case None
    then show ?thesis by (simp add: getdescendant_simps getitem_def getdescendant_init)
  next
    case (Some v)
    then have "(k, v) \<in> set (children t)" by (rule map_of_SomeD)
    then have "r \<noteq> []" and "r \<notin> set (descendants [] v)"
      using Cons.prems(2) in_descendants_Cons [of k r t] by blast+
    then have "getdescendant r v = LazyTree_init" by (rule Cons.IH)
    then show ?thesis using Some by (simp add: getdescendant_simps getitem_def)
  qed
qed

lemma load_record_paths:
  "map fst (concat (map (load_record w t) ps)) =
     filter (\<lambda>p. geometries (getdescendant p t) \<noteq> []) ps"
  by (induction ps) (simp_all add: load_record_def)

lemma in_load_records:
  "(path, gs) \<in> set (concat (map (load_record w t) ps)) \<longleftrightarrow>
     path \<in> set ps \<and> geometries (getdescendant path t) \<noteq> [] \<and>
     gs = map (serialize w) (geometries (getdescendant path t))"
  by (induction ps) (auto simp: load_record_def)

lemma filter_fst_map:
  "distinct xs \<Longrightarrow> p \<in> set xs \<Longrightarrow>
     filter (\<lambda>r. fst r = p) (map (\<lambda>x. (x, g x)) xs) = [(p, g p)]"
proof (induction xs)
  case Nil
  then show ?case by simp
next
  case (Cons x xs)
  show ?case
  proof (cases "x = p")
    case True
    then have "p \<notin> set xs" using Cons.prems(1) by simp
    then have "filter (\<lambda>r. fst r = p) (map (\<lambda>x. (x, g x)) xs) = []"
      by (auto simp: filter_empty_conv)
    then show ?thesis using True by simp
  next
    case False
    then show ?thesis using Cons by simp
  qed
qed

subsection \<open>Nodes that a flush creates\<close>

lemma alter_in:
  "(k, g (case map_of ch k of None \<Rightarrow> d | Some v \<Rightarrow> v)) \<in> set (alter k g d ch)"
  by (induction ch) auto

lemma alter_entry:
  "(k2, v) \<in> set ch \<Longrightarrow>
     (k2, v) \<in> set (alter k g d ch) \<or> (k2 = k \<and> (k, g v) \<in> set (alter k g d ch))"
  by (induction ch) (auto split: if_splits)

lemma in_with_descendant_self:
  "p \<noteq> [] \<Longrightarrow> p \<in> set (descendants [] (with_descendant p f t))"
proof (induction p arbitrary: t)
  case Nil
  then show ?case by simp
next
  case (Cons k r)
  define v0 where "v0 = (case map_of (children t) k of None \<Rightarrow> LazyTree_init | Some v \<Rightarrow> v)"
  have "(k, with_descendant r f v0) \<in> set (children (with_descendant (k # r) f t))"
    unfolding v0_def by (simp add: alter_in)
  moreover have "r = [] \<or> r \<in> set (descendants [] (with_descendant r f v0))"
    using Cons.IH [of v0] by blast
  ultimately show ?case
    unfolding in_descendants_Cons by blast
qed

lemma descendants_touch_mono:
  "x \<in> set (descendants [] t) \<Longrightarrow> x \<in> set (descendants [] (touch q t))"
proof (induction q arbitrary: x t)
  case Nil
  then show ?case by (simp add: touch_def)
next
  case (Cons k qs)
  have "x \<noteq> []"
    using Cons.prems Nil_notin_descendants [of t] by blast
  then obtain k2 r where x: "x = k2 # r"
    by (cases x) auto
  obtain v where v: "(k2, v) \<in> set (children t)" "r = [] \<or> r \<in> set (descendants [] v)"
    using Cons.prems unfolding x in_descendants_Cons by blast
  have ch: "children (touch (k # qs) t) = alter k (touch qs) LazyTree_init (children t)"
    by (simp add: touch_def [abs_def])
  from alter_entry [OF v(1), of k "touch qs" LazyTree_init]
  show ?case
  proof
    assume "(k2, v) \<in> set (alter k (touch qs) LazyTree_init (children t))"
    with v(2) show ?thesis unfolding x in_descendants_Cons ch by blast
  next
    assume a: "k2 = k \<and> (k, touch qs v) \<in> set (alter k (touch qs) LazyTree_init (children t))"
    have "r = [] \<or> r \<in> set (descendants [] (touch qs v))"
      using v(2) Cons.IH by blast
    with a show ?thesis unfolding x in_descendants_Cons ch by blast
  qed
qed

lemma descendants_fold_touch_mono:
  "x \<in> set (descendants [] t) \<Longrightarrow> x \<in> set (descendants [] (fold touch qs t))"
  by (induction qs arbitrary: t) (simp_all add: descendants_touch_mono)

lemma in_fold_touch:
  "p \<in> set qs \<Longrightarrow> p \<noteq> [] \<Longrightarrow> p \<in> set (descendants [] (fold touch qs t))"
proof (induction qs arbitrary: t)
  case Nil
  then show ?case by simp
next
  case (Cons q qs)
  show ?case
  proof (cases "p = q")
    case True
    then have "p \<in> set (descendants [] (touch q t))"
      using Cons.prems(2) by (simp add: touch_def in_with_descendant_self)
    then show ?thesis by (simp add: descendants_fold_touch_mono)
  next
    case False
    then show ?thesis using Cons by simp
  qed
qed

subsection \<open>Marking every path\<close>

lemma mark_all_sets:
  "set (list_of_dlist (load (mark_all ps q))) = set (list_of_dlist (load q)) \<union> set ps \<and>
   set (list_of_dlist (draw (mark_all ps q))) = set (list_of_dlist (draw q)) \<union> set ps \<and>
   delete (mark_all ps q) = delete q"
  unfolding mark_all_def by (induction ps arbitrary: q) auto

subsection \<open>The paths of the tree after a call\<close>

lemma set_on_the_way: "set (on_the_way q) = {p. p \<noteq> [] \<and> prefix p q}"
  by (cases q) (auto simp: on_the_way_def prefix_Cons)








lemma descendants_prefix_closed:
  "p \<in> set (descendants [] t) \<Longrightarrow> r \<noteq> [] \<Longrightarrow> prefix r p \<Longrightarrow> r \<in> set (descendants [] t)"
proof (induction r arbitrary: p t)
  case Nil
  then show ?case by simp
next
  case (Cons k r')
  from Cons.prems(3) obtain p' where p: "p = k # p'" and pre: "prefix r' p'"
    by (cases p) auto
  obtain v where v: "(k, v) \<in> set (children t)" "p' = [] \<or> p' \<in> set (descendants [] v)"
    using Cons.prems(1) unfolding p in_descendants_Cons by blast
  show ?case
  proof (cases "r' = []")
    case True
    with v(1) show ?thesis unfolding in_descendants_Cons by blast
  next
    case False
    then have "p' \<noteq> []" using pre by auto
    then have "p' \<in> set (descendants [] v)" using v(2) by simp
    then have "r' \<in> set (descendants [] v)" using False pre by (rule Cons.IH)
    with v(1) show ?thesis unfolding in_descendants_Cons by blast
  qed
qed

lemma on_the_way_subset:
  "q \<in> set (descendants [] t) \<or> q = [] \<Longrightarrow> set (on_the_way q) \<subseteq> set (descendants [] t)"
  unfolding set_on_the_way using descendants_prefix_closed by auto












subsection \<open>Unfolding the calls on concrete states\<close>

lemmas call_defs =
  core_draw_def core_load_def core_load_geoms_def core_delete_def maybe_publish_def
  publish_def serialize_queue_def handle_response_def mark_all_def
  vis_load_def vis_draw_def vis_delete_def Visualizer_init_def vis_getitem_def

lemmas state_defs =
  CoreVisualizer_init_def batching_core_def CommandQueue_init_def LazyTree_init_def
  isempty_def empty_def sample_world_def touch_def set_transform_def set_geometries_def
  del_child_def getdescendant_def getitem_def convert_def GeometryData_def

lemma drawn_core_queue:
  "list_of_dlist (draw (queue drawn_core)) = [[''a'']]"
  "list_of_dlist (load (queue drawn_core)) = []"
  "list_of_dlist (delete (queue drawn_core)) = []"
  by (simp_all add: drawn_core_def call_defs state_defs)

lemma drawn_core_nonempty: "\<not> isempty (queue drawn_core)"
  by (simp add: isempty_def drawn_core_queue)

lemmas flush_simps =
  core_draw_def core_load_def core_load_geoms_def core_delete_def maybe_publish_def
  publish_def case_prod_beta serialize_queue_eq load_record_def draw_record_def
  handle_response_def mark_all_def
  vis_load_def vis_draw_def vis_delete_def Visualizer_init_def vis_getitem_def


section \<open>The claims\<close>




text \<open>
  C2, as the code has it. The claim says that the three pending sets are empty after
  \<^verbatim>\<open>publish\<close> on a non-empty queue whatever the transport does. In the code
  \<^verbatim>\<open>self.queue.empty()\<close> is the statement after \<^verbatim>\<open>self.lcm.publish(...)\<close>: when the
  send returns, the call returns normally and the three sets are empty; when the send
  raises, the failure reaches the caller and the queue is what it was before the call, so
  the batch stays queued.
\<close>

theorem publish_queue_after_send:
  assumes "\<not> isempty (queue c)"
  shows "(lcm_publish w (fst (serialize_queue w c)) \<longrightarrow>
            fst (publish w c) = Inr () \<and> queue (snd (publish w c)) = CommandQueue_init \<and>
            isempty (queue (snd (publish w c)))) \<and>
         (\<not> lcm_publish w (fst (serialize_queue w c)) \<longrightarrow>
            fst (publish w c) = Inl TransportError \<and> queue (snd (publish w c)) = queue c)"
  using assms
  by (simp add: publish_accepted publish_refused isempty_init serialize_queue_state)

theorem publish_queue_after_send_witness:
  "\<not> isempty (queue drawn_core) \<and>
   fst (publish (sample_world True) drawn_core) = Inr () \<and>
   queue (snd (publish (sample_world True) drawn_core)) = CommandQueue_init \<and>
   fst (publish (sample_world False) drawn_core) = Inl TransportError \<and>
   queue (snd (publish (sample_world False) drawn_core)) = queue drawn_core"
  using publish_queue_after_send [OF drawn_core_nonempty, of "sample_world True"]
    publish_queue_after_send [OF drawn_core_nonempty, of "sample_world False"]
    drawn_core_nonempty
  by (simp add: sample_world_def)

text \<open>
  C2 as stated fails: the path \<open>a\<close> is marked for draw, the transport refuses the
  message, and after \<^verbatim>\<open>publish\<close> the draw set still holds \<open>a\<close>.
\<close>

theorem publish_refused_counterexample:
  "\<not> isempty (queue drawn_core) \<and>
   fst (publish (sample_world False) drawn_core) = Inl TransportError \<and>
   list_of_dlist (draw (queue (snd (publish (sample_world False) drawn_core)))) = [[''a'']]"
proof -
  have "\<not> lcm_publish (sample_world False) (fst (serialize_queue (sample_world False) drawn_core))"
    by (simp add: sample_world_def)
  then have "publish (sample_world False) drawn_core =
      (Inl TransportError, snd (serialize_queue (sample_world False) drawn_core))"
    using drawn_core_nonempty by (rule publish_refused [rotated])
  then show ?thesis
    by (simp add: drawn_core_nonempty serialize_queue_state drawn_core_queue)
qed

text \<open>
  C3 at the failing input. The claim says that \<^verbatim>\<open>delete\<close> cannot fail, also when no
  node exists at the path. On a fresh core, \<^verbatim>\<open>delete(("a",))\<close> raises \<^verbatim>\<open>KeyError\<close>;
  \<^verbatim>\<open>delete(("a", "b"))\<close> raises it too, after it has created the node \<open>a\<close>, and
  marks nothing for delete.
\<close>

theorem delete_missing_raises:
  "core_delete (sample_world True) [''a''] CoreVisualizer_init =
     (Inl (KeyError ''a''), CoreVisualizer_init) \<and>
   fst (core_delete (sample_world True) [''a'', ''b''] CoreVisualizer_init) = Inl (KeyError ''b'') \<and>
   descendants [] (tree (snd (core_delete (sample_world True) [''a'', ''b''] CoreVisualizer_init))) =
     [[''a'']] \<and>
   list_of_dlist
     (delete (queue (snd (core_delete (sample_world True) [''a'', ''b''] CoreVisualizer_init)))) = []"
  by (simp add: call_defs state_defs)

text \<open>
  C4, as the code has it. A response with status 0 changes nothing. A response with
  status 1 returns normally, leaves the tree as it is and adds every path of
  \<^verbatim>\<open>descendants()\<close> to the load set and to the draw set, and to nothing else. The message
  that the next \<^verbatim>\<open>publish\<close> builds then holds, for every path present in the tree, a
  draw record with the encoding of the node's transform; it holds a load record for such a
  path when the node holds geometries, and no load record when it holds none. When the
  tree has a path and the transport accepts the message, that message is sent.
\<close>

theorem handle_response_resync:
  "handle_response 0 c = (Inr (), c) \<and>
   (let c1 = snd (handle_response 1 c); m = fst (serialize_queue w c1)
    in fst (handle_response 1 c) = Inr () \<and> tree c1 = tree c \<and> sent c1 = sent c \<and>
       set (list_of_dlist (load (queue c1))) =
         set (list_of_dlist (load (queue c))) \<union> set (descendants [] (tree c)) \<and>
       set (list_of_dlist (draw (queue c1))) =
         set (list_of_dlist (draw (queue c))) \<union> set (descendants [] (tree c)) \<and>
       delete (queue c1) = delete (queue c) \<and>
       (\<forall>p \<in> set (descendants [] (tree c)).
          (p, serialize_transform w (transform (getdescendant p (tree c)))) \<in> set (msg_draw m) \<and>
          (geometries (getdescendant p (tree c)) \<noteq> [] \<longrightarrow>
             (p, map (serialize w) (geometries (getdescendant p (tree c)))) \<in> set (msg_load m)) \<and>
          (geometries (getdescendant p (tree c)) = [] \<longrightarrow> p \<notin> fst ` set (msg_load m))) \<and>
       (descendants [] (tree c) \<noteq> [] \<and> lcm_publish w m \<longrightarrow>
          fst (publish w c1) = Inr () \<and> sent (snd (publish w c1)) = sent c @ [m]))"
proof -
  define c1 where "c1 = snd (handle_response 1 c)"
  define m where "m = fst (serialize_queue w c1)"
  have c1: "c1 = c\<lparr>queue := mark_all (descendants [] (tree c)) (queue c)\<rparr>"
    by (simp add: c1_def handle_response_def)
  have t: "tree c1 = tree c" and s: "sent c1 = sent c" by (simp_all add: c1)
  have ld: "set (list_of_dlist (load (queue c1))) =
         set (list_of_dlist (load (queue c))) \<union> set (descendants [] (tree c))"
    and dr: "set (list_of_dlist (draw (queue c1))) =
         set (list_of_dlist (draw (queue c))) \<union> set (descendants [] (tree c))"
    and de: "delete (queue c1) = delete (queue c)"
    by (simp_all add: c1 mark_all_sets)
  have rec: "(p, serialize_transform w (transform (getdescendant p (tree c)))) \<in> set (msg_draw m) \<and>
          (geometries (getdescendant p (tree c)) \<noteq> [] \<longrightarrow>
             (p, map (serialize w) (geometries (getdescendant p (tree c)))) \<in> set (msg_load m)) \<and>
          (geometries (getdescendant p (tree c)) = [] \<longrightarrow> p \<notin> fst ` set (msg_load m))"
    if p: "p \<in> set (descendants [] (tree c))" for p
  proof -
    have pd: "p \<in> set (list_of_dlist (draw (queue c1)))"
      and pl: "p \<in> set (list_of_dlist (load (queue c1)))"
      using p by (simp_all add: ld dr)
    have "draw_record w (tree c) p \<in> set (msg_draw m)"
      using pd by (simp add: m_def serialize_queue_msg t)
    then have a: "(p, serialize_transform w (transform (getdescendant p (tree c)))) \<in> set (msg_draw m)"
      by (simp add: draw_record_def)
    have l: "msg_load m = concat (map (load_record w (tree c)) (list_of_dlist (load (queue c1))))"
      by (simp add: m_def serialize_queue_msg t)
    have b: "geometries (getdescendant p (tree c)) \<noteq> [] \<longrightarrow>
             (p, map (serialize w) (geometries (getdescendant p (tree c)))) \<in> set (msg_load m)"
      unfolding l in_load_records using pl by blast
    have "set (map fst (msg_load m)) \<subseteq> {p. geometries (getdescendant p (tree c)) \<noteq> []}"
      unfolding l load_record_paths by auto
    then have c: "geometries (getdescendant p (tree c)) = [] \<longrightarrow> p \<notin> fst ` set (msg_load m)"
      by auto
    from a b c show ?thesis by blast
  qed
  have pub: "descendants [] (tree c) \<noteq> [] \<and> lcm_publish w m \<longrightarrow>
          fst (publish w c1) = Inr () \<and> sent (snd (publish w c1)) = sent c @ [m]"
  proof
    assume a: "descendants [] (tree c) \<noteq> [] \<and> lcm_publish w m"
    then have "set (list_of_dlist (load (queue c1))) \<noteq> {}"
      unfolding ld by simp
    then have "\<not> isempty (queue c1)" by (simp add: isempty_def)
    then show "fst (publish w c1) = Inr () \<and> sent (snd (publish w c1)) = sent c @ [m]"
      using a by (simp add: m_def publish_accepted s)
  qed
  have z: "handle_response 0 c = (Inr (), c)" by (simp add: handle_response_def)
  have r: "fst (handle_response 1 c) = Inr ()" by (simp add: handle_response_def)
  from z r t s ld dr de rec pub show ?thesis
    unfolding Let_def c1_def [symmetric] m_def [symmetric] by blast
qed

theorem handle_response_resync_witness:
  "descendants [] (tree loaded_core) = [[''a''], [''a'', ''b'']] \<and>
   isempty (queue loaded_core) \<and>
   geometries (getdescendant [''a''] (tree loaded_core)) = [] \<and>
   geometries (getdescendant [''a'', ''b''] (tree loaded_core)) \<noteq> [] \<and>
   lcm_publish (sample_world True)
     (fst (serialize_queue (sample_world True) (snd (handle_response 1 loaded_core)))) \<and>
   [''a''] \<notin> fst ` set (msg_load
     (fst (serialize_queue (sample_world True) (snd (handle_response 1 loaded_core))))) \<and>
   ([''a'', ''b''], [serialize (sample_world True) (GeometryData Triad)]) \<in> set (msg_load
     (fst (serialize_queue (sample_world True) (snd (handle_response 1 loaded_core))))) \<and>
   sent (snd (publish (sample_world True) (snd (handle_response 1 loaded_core)))) =
     sent loaded_core @
     [fst (serialize_queue (sample_world True) (snd (handle_response 1 loaded_core)))]"
proof -
  have d: "descendants [] (tree loaded_core) = [[''a''], [''a'', ''b'']]"
    and e: "isempty (queue loaded_core)"
    and g1: "geometries (getdescendant [''a''] (tree loaded_core)) = []"
    and g2: "geometries (getdescendant [''a'', ''b''] (tree loaded_core)) = [GeometryData Triad]"
    by (simp_all add: loaded_core_def flush_simps state_defs)
  have s: "lcm_publish (sample_world True)
     (fst (serialize_queue (sample_world True) (snd (handle_response 1 loaded_core))))"
    by (simp add: sample_world_def)
  show ?thesis
    using handle_response_resync [of loaded_core "sample_world True"] d e g1 g2 s
    by (simp add: Let_def)
qed

text \<open>
  C4 as stated fails: after a load at \<open>a/b\<close> the tree holds the paths \<open>a\<close> and
  \<open>a/b\<close>; after a response with status 1 the message that \<^verbatim>\<open>publish\<close> sends has a load
  record for \<open>a/b\<close> only, and none for \<open>a\<close>, whose node holds no geometries.
\<close>

theorem resync_no_load_record_counterexample:
  "[''a''] \<in> set (descendants [] (tree loaded_core)) \<and>
   fst (handle_response 1 loaded_core) = Inr () \<and>
   fst (publish (sample_world True) (snd (handle_response 1 loaded_core))) = Inr () \<and>
   map fst (msg_load (last (sent
     (snd (publish (sample_world True) (snd (handle_response 1 loaded_core))))))) =
     [[''a'', ''b'']]"
  by (simp add: loaded_core_def flush_simps state_defs)

text \<open>
  C5. When the status of a response is neither 0 nor 1, the handler raises
  (\<^verbatim>\<open>ValueError\<close>), and the tree and the queue, the whole state of the core, are as
  they were.
\<close>

theorem handle_response_unrecognized:
  assumes "status \<noteq> 0" "status \<noteq> 1"
  shows "handle_response status c = (Inl (ValueError status), c)"
  using assms by (simp add: handle_response_def)

theorem handle_response_unrecognized_witness:
  "(2::int) \<noteq> 0 \<and> (2::int) \<noteq> 1 \<and>
   handle_response 2 drawn_core = (Inl (ValueError 2), drawn_core)"
  using handle_response_unrecognized [of 2 drawn_core] by simp

text \<open>
  C6, as the code has it. When the core does not publish immediately, \<^verbatim>\<open>draw(p, A)\<close>,
  then \<^verbatim>\<open>draw(p, B)\<close>, then one \<^verbatim>\<open>publish\<close>: the queue is not empty, the message
  that \<^verbatim>\<open>publish\<close> builds holds exactly one draw record for \<open>p\<close>, that record carries
  the encoding of \<open>B\<close>, and the message is the one sent when the transport accepts it.
\<close>

theorem draws_coalesce:
  assumes "\<not> publish_immediately c"
  shows "let c2 = snd (core_draw w p B (snd (core_draw w p A c)));
             m = fst (serialize_queue w c2)
         in \<not> isempty (queue c2) \<and>
            filter (\<lambda>r. fst r = p) (msg_draw m) = [(p, serialize_transform w B)] \<and>
            (lcm_publish w m \<longrightarrow> sent (snd (publish w c2)) = sent c @ [m])"
proof -
  define c2 where "c2 = snd (core_draw w p B (snd (core_draw w p A c)))"
  define m where "m = fst (serialize_queue w c2)"
  have q: "draw (queue c2) = Dlist.insert p (Dlist.insert p (draw (queue c)))"
    and s: "sent c2 = sent c"
    using assms by (simp_all add: c2_def core_draw_def maybe_publish_def)
  have in_q: "p \<in> set (list_of_dlist (draw (queue c2)))"
    by (simp add: q)
  then have ne: "\<not> isempty (queue c2)"
    by (auto simp: isempty_def)
  have tf: "transform (getdescendant p (tree c2)) = B"
    unfolding c2_def by (rule core_draw_transform)
  have "msg_draw m =
      map (\<lambda>x. (x, serialize_transform w (transform (getdescendant x (tree c2)))))
        (list_of_dlist (draw (queue c2)))"
    by (simp add: m_def serialize_queue_msg draw_record_def [abs_def])
  moreover have "filter (\<lambda>r. fst r = p)
      (map (\<lambda>x. (x, serialize_transform w (transform (getdescendant x (tree c2)))))
        (list_of_dlist (draw (queue c2)))) =
      [(p, serialize_transform w (transform (getdescendant p (tree c2))))]"
    using distinct_list_of_dlist in_q by (rule filter_fst_map)
  ultimately have one: "filter (\<lambda>r. fst r = p) (msg_draw m) = [(p, serialize_transform w B)]"
    by (simp only: tf)
  have "lcm_publish w m \<longrightarrow> sent (snd (publish w c2)) = sent c @ [m]"
    using ne by (simp add: m_def publish_accepted s)
  with ne one show ?thesis
    unfolding Let_def c2_def [symmetric] m_def [symmetric] by blast
qed

theorem draws_coalesce_witness:
  "\<not> publish_immediately batching_core \<and>
   msg_draw (fst (serialize_queue (sample_world True)
      (snd (core_draw (sample_world True) [''a''] shift_x
         (snd (core_draw (sample_world True) [''a''] eye4 batching_core)))))) =
     [([''a''], serialize_transform (sample_world True) shift_x)] \<and>
   filter (\<lambda>r. fst r = [''a''])
     (msg_draw (fst (serialize_queue (sample_world True)
        (snd (core_draw (sample_world True) [''a''] shift_x
           (snd (core_draw (sample_world True) [''a''] eye4 batching_core))))))) =
     [([''a''], serialize_transform (sample_world True) shift_x)]"
proof -
  have b: "\<not> publish_immediately batching_core"
    by (simp add: batching_core_def)
  have "msg_draw (fst (serialize_queue (sample_world True)
      (snd (core_draw (sample_world True) [''a''] shift_x
         (snd (core_draw (sample_world True) [''a''] eye4 batching_core)))))) =
     [([''a''], serialize_transform (sample_world True) shift_x)]"
    by (simp add: flush_simps state_defs)
  then show ?thesis
    using draws_coalesce [OF b, of "sample_world True" "[''a'']" shift_x eye4] b
    by (simp add: Let_def)
qed

text \<open>
  C6 as stated fails on a core as it is constructed, which publishes immediately: each
  \<^verbatim>\<open>draw\<close> sends its own message, so two draw records for \<open>p\<close> are emitted, the first
  with the encoding of \<open>A\<close>, and the \<^verbatim>\<open>publish\<close> that follows finds the queue empty
  and sends nothing.
\<close>

theorem draws_immediate_counterexample:
  "publish_immediately CoreVisualizer_init \<and>
   map msg_draw (sent (snd (publish (sample_world True)
      (snd (core_draw (sample_world True) [''a''] shift_x
         (snd (core_draw (sample_world True) [''a''] eye4 CoreVisualizer_init))))))) =
     [[([''a''], serialize_transform (sample_world True) eye4)],
      [([''a''], serialize_transform (sample_world True) shift_x)]] \<and>
   serialize_transform (sample_world True) eye4 \<noteq> serialize_transform (sample_world True) shift_x \<and>
   sent (snd (publish (sample_world True)
      (snd (core_draw (sample_world True) [''a''] shift_x
         (snd (core_draw (sample_world True) [''a''] eye4 CoreVisualizer_init)))))) =
   sent (snd (core_draw (sample_world True) [''a''] shift_x
         (snd (core_draw (sample_world True) [''a''] eye4 CoreVisualizer_init))))"
  by (simp add: flush_simps state_defs serialize_transform_def sample_translation_def
        sample_quaternion_def eye4_def shift_x_def)

text \<open>
  C7. After \<^verbatim>\<open>draw(p, T)\<close> and then \<^verbatim>\<open>load(p, G)\<close>, whatever the core was, whatever
  the transport does and whatever \<open>G\<close> is, the transform of the node at \<open>p\<close> reads
  \<open>T\<close>, and the geometry list of the node is the list made from \<open>G\<close> alone.
\<close>

theorem load_keeps_transform:
  "transform (getdescendant p (tree (snd (core_load w p G (snd (core_draw w p T c)))))) = T \<and>
   geometries (getdescendant p (tree (snd (core_load w p G (snd (core_draw w p T c)))))) =
     (case G of Single item \<Rightarrow> [convert item] | Collection items \<Rightarrow> map convert items)"
  by (simp add: core_load_transform core_load_geometries core_draw_transform)

theorem load_keeps_transform_witness:
  "transform (getdescendant [''a'']
     (tree (snd (core_load (sample_world True) [''a''] (Single (Geom Triad))
        (snd (core_draw (sample_world True) [''a''] shift_x CoreVisualizer_init)))))) = shift_x \<and>
   geometries (getdescendant [''a'']
     (tree (snd (core_load (sample_world True) [''a''] (Single (Geom Triad))
        (snd (core_draw (sample_world True) [''a''] shift_x CoreVisualizer_init)))))) =
     [GeometryData Triad]"
  using load_keeps_transform [of "[''a'']" "sample_world True" "Single (Geom Triad)" shift_x
      CoreVisualizer_init]
  by (simp add: convert_def)



text \<open>
  C9. On a fresh core, in either publishing mode, with a transport that accepts every
  message and a codec that encodes the identity as the translation \<open>[0, 0, 0]\<close> and the
  quaternion \<open>[1, 0, 0, 0]\<close>: loading \<^verbatim>\<open>Box([1, 1, 1])\<close> through a \<^verbatim>\<open>Visualizer\<close> at
  \<^verbatim>\<open>"/a/b"\<close> and publishing sends one message, whose load list is the one record of the
  claim.
\<close>

theorem load_box_message:
  assumes "translation_from_matrix w eye4 = [0, 0, 0]"
    and "quaternion_from_matrix w eye4 = [1, 0, 0, 0]"
    and "\<forall>m. lcm_publish w m"
  shows "sent (snd (publish w (snd (vis_load w (Visualizer_init (StrPath ''/a/b''))
              (Single (Geom (Box [1, 1, 1])))
              (CoreVisualizer_init\<lparr>publish_immediately := b\<rparr>))))) =
         [\<lparr>utime = time_us w, msg_delete = [],
           msg_load =
             [([''a'', ''b''],
               [JDict [(''type'', JStr ''box''),
                       (''lengths'', JList [JNum 1, JNum 1, JNum 1]),
                       (''color'', JList [JNum 1, JNum 1, JNum 1, JNum 1]),
                       (''transform'',
                        JDict [(''translation'', JList [JNum 0, JNum 0, JNum 0]),
                               (''quaternion'', JList [JNum 1, JNum 0, JNum 0, JNum 0])])]])],
           msg_draw = []\<rparr>]"
  using assms
  by (cases b) (simp_all add: call_defs state_defs serialize_def serialize_transform_def)

theorem load_box_message_witness:
  "translation_from_matrix (sample_world True) eye4 = [0, 0, 0] \<and>
   quaternion_from_matrix (sample_world True) eye4 = [1, 0, 0, 0] \<and>
   (\<forall>m. lcm_publish (sample_world True) m) \<and>
   map msg_load (sent (snd (publish (sample_world True)
      (snd (vis_load (sample_world True) (Visualizer_init (StrPath ''/a/b''))
              (Single (Geom (Box [1, 1, 1]))) CoreVisualizer_init))))) =
     [[([''a'', ''b''],
        [JDict [(''type'', JStr ''box''),
                (''lengths'', JList [JNum 1, JNum 1, JNum 1]),
                (''color'', JList [JNum 1, JNum 1, JNum 1, JNum 1]),
                (''transform'',
                 JDict [(''translation'', JList [JNum 0, JNum 0, JNum 0]),
                        (''quaternion'', JList [JNum 1, JNum 0, JNum 0, JNum 0])])]])]]"
proof -
  have t: "translation_from_matrix (sample_world True) eye4 = [0, 0, 0]"
    by (simp add: sample_world_def sample_translation_def eye4_def)
  have q: "quaternion_from_matrix (sample_world True) eye4 = [1, 0, 0, 0]"
    by (simp add: sample_world_def sample_quaternion_def eye4_def)
  have s: "\<forall>m. lcm_publish (sample_world True) m"
    by (simp add: sample_world_def)
  have i: "CoreVisualizer_init\<lparr>publish_immediately := True\<rparr> = CoreVisualizer_init"
    by (simp add: CoreVisualizer_init_def)
  show ?thesis
    using load_box_message [OF t q s, of True] t q s by (simp add: i)
qed

text \<open>
  C10. A path that is marked for load or for draw and has no node in the tree when the
  queue is serialised has a node afterwards, with no geometries and the identity
  transform; when it is marked for draw, the message holds a draw record for it with the
  encoding of the identity.
\<close>

theorem serialize_queue_creates_nodes:
  assumes "p \<in> set (list_of_dlist (load (queue c))) \<union> set (list_of_dlist (draw (queue c)))"
    and "p \<noteq> []" and "p \<notin> set (descendants [] (tree c))"
  shows "p \<in> set (descendants [] (tree (snd (serialize_queue w c)))) \<and>
         geometries (getdescendant p (tree (snd (serialize_queue w c)))) = [] \<and>
         transform (getdescendant p (tree (snd (serialize_queue w c)))) = eye4 \<and>
         (p \<in> set (list_of_dlist (draw (queue c))) \<longrightarrow>
            (p, serialize_transform w eye4) \<in> set (msg_draw (fst (serialize_queue w c))))"
proof -
  let ?ld = "list_of_dlist (load (queue c))" and ?dr = "list_of_dlist (draw (queue c))"
  have fresh: "getdescendant p (tree c) = LazyTree_init"
    using assms(2,3) by (rule missing_node_fresh)
  have "p \<in> set (descendants [] (fold touch ?dr (fold touch ?ld (tree c))))"
  proof (cases "p \<in> set ?dr")
    case True
    then show ?thesis using assms(2) by (rule in_fold_touch)
  next
    case False
    then have "p \<in> set ?ld" using assms(1) by simp
    then have "p \<in> set (descendants [] (fold touch ?ld (tree c)))"
      using assms(2) by (rule in_fold_touch)
    then show ?thesis by (rule descendants_fold_touch_mono)
  qed
  then have a: "p \<in> set (descendants [] (tree (snd (serialize_queue w c))))"
    by (simp add: serialize_queue_state)
  have b: "geometries (getdescendant p (tree (snd (serialize_queue w c)))) = []"
    and c: "transform (getdescendant p (tree (snd (serialize_queue w c)))) = eye4"
    by (simp_all add: serialize_queue_state getdescendant_fold_touch_data fresh LazyTree_init_def)
  have d: "p \<in> set ?dr \<longrightarrow> (p, serialize_transform w eye4) \<in> set (msg_draw (fst (serialize_queue w c)))"
  proof
    assume "p \<in> set ?dr"
    then have "draw_record w (tree c) p \<in> set (msg_draw (fst (serialize_queue w c)))"
      by (simp add: serialize_queue_msg)
    then show "(p, serialize_transform w eye4) \<in> set (msg_draw (fst (serialize_queue w c)))"
      by (simp add: draw_record_def fresh LazyTree_init_def)
  qed
  from a b c d show ?thesis by blast
qed

theorem serialize_queue_creates_nodes_witness:
  "[''a''] \<in> set (list_of_dlist (load (queue erased_core))) \<union>
     set (list_of_dlist (draw (queue erased_core))) \<and>
   [''a''] \<noteq> [] \<and>
   descendants [] (tree erased_core) = [] \<and>
   descendants [] (tree (snd (serialize_queue (sample_world True) erased_core))) = [[''a'']] \<and>
   transform (getdescendant [''a''] (tree (snd (serialize_queue (sample_world True) erased_core)))) =
     eye4 \<and>
   msg_draw (fst (serialize_queue (sample_world True) erased_core)) =
     [([''a''], serialize_transform (sample_world True) eye4)]"
proof -
  have q: "[''a''] \<in> set (list_of_dlist (load (queue erased_core))) \<union>
     set (list_of_dlist (draw (queue erased_core)))"
    and d: "descendants [] (tree erased_core) = []"
    and d': "descendants [] (tree (snd (serialize_queue (sample_world True) erased_core))) = [[''a'']]"
    and m: "msg_draw (fst (serialize_queue (sample_world True) erased_core)) =
     [([''a''], serialize_transform (sample_world True) eye4)]"
    by (simp_all add: erased_core_def flush_simps state_defs)
  have n: "[''a''] \<notin> set (descendants [] (tree erased_core))"
    by (simp add: d)
  have ne: "[''a''] \<noteq> ([] :: path)" by simp
  from serialize_queue_creates_nodes [OF q ne n, of "sample_world True"] q d d' m
  show ?thesis by simp
qed

end
